theory Spec2Isabelle
  imports Complex_Main "HOL-Library.Multiset" "HOL-Library.Product_Lexorder"
begin

section \<open>Numbers of the source\<close>

text \<open>
  The budget, the unit costs, the ICU flags and the number of ICU beds are Python
  integers in the source tables; they are \<open>int\<close> here. Severity, incidence, durations and
  the room hours are Python floats; they are read as the rationals they denote
  (\<open>rat\<close>), so rounding is not part of this development. The one float behaviour kept
  is the division of a column by a zero cost, which pandas answers with an infinity or
  a NaN instead of an exception.
\<close>

datatype fval = Fin rat | PInf | NInf | NaN

text \<open>\<open>gravidade / custo_r\<close> on two columns: elementwise, no exception on a zero cost.\<close>

definition fdiv_int :: "rat \<Rightarrow> int \<Rightarrow> fval" where
  "fdiv_int g c =
     (if c \<noteq> 0 then Fin (g / of_int c)
      else if 0 < g then PInf else if g < 0 then NInf else NaN)"

text \<open>A float times a finite number (\<open>* 10000\<close>, \<open>qtd_max * proc['peso']\<close>).\<close>

fun fmul :: "fval \<Rightarrow> rat \<Rightarrow> fval" where
  "fmul (Fin a) k = Fin (a * k)"
| "fmul PInf k = (if 0 < k then PInf else if k < 0 then NInf else NaN)"
| "fmul NInf k = (if 0 < k then NInf else if k < 0 then PInf else NaN)"
| "fmul NaN k = NaN"

fun fadd :: "fval \<Rightarrow> fval \<Rightarrow> fval" where
  "fadd (Fin a) (Fin b) = Fin (a + b)"
| "fadd NaN b = NaN"
| "fadd a NaN = NaN"
| "fadd PInf NInf = NaN"
| "fadd NInf PInf = NaN"
| "fadd PInf b = PInf"
| "fadd a PInf = PInf"
| "fadd NInf b = NInf"
| "fadd a NInf = NInf"

text \<open>\<open>int(v)\<close> on a number: truncation towards zero.\<close>

definition trunc_int :: "rat \<Rightarrow> int" where
  "trunc_int v = (if 0 \<le> v then \<lfloor>v\<rfloor> else \<lceil>v\<rceil>)"

datatype py_error = ZeroDivisionError

section \<open>The procedure table\<close>

text \<open>
  One row of the data frame \<open>df\<close>. The column \<open>id\<close> is called \<open>id_p\<close> here.
\<close>

record linha =
  id_p :: string
  procedimento :: string
  gravidade :: rat
  tempo_h :: rat
  custo_r :: int
  uti :: int
  incidencia_pe :: rat

text \<open>
  The data frame: its rows, and the column \<open>peso\<close> that
  \<open>resolver_simplex_guloso\<close> assigns (\<open>None\<close>: the frame has no such column).
\<close>

record frame =
  linhas :: "linha list"
  peso :: "fval list option"

definition mk_linha :: "string \<Rightarrow> string \<Rightarrow> rat \<Rightarrow> rat \<Rightarrow> int \<Rightarrow> int \<Rightarrow> rat \<Rightarrow> linha" where
  "mk_linha i p g t c u inc =
     \<lparr>id_p = i, procedimento = p, gravidade = g, tempo_h = t, custo_r = c, uti = u,
      incidencia_pe = inc\<rparr>"

text \<open>The table \<open>procedimentos\<close> of both scripts (accents of the names left out).\<close>

definition procedimentos :: "linha list" where
  "procedimentos =
    [mk_linha ''P1'' ''Mastectomia (Cancer de Mama)'' (85/10) (35/10) 15000 1 (362/100),
     mk_linha ''P2'' ''Prostatectomia (Cancer de Prostata)'' (78/10) 4 18000 1 (1001/100),
     mk_linha ''P3'' ''Colectomia (Cancer de Colon)'' (92/10) 5 25000 1 (1371/100),
     mk_linha ''P4'' ''Gastrectomia (Cancer de Estomago)'' (95/10) 6 28000 1 (736/100),
     mk_linha ''P5'' ''Lobectomia (Cancer de Pulmao)'' (98/10) (55/10) 35000 1 (309/100),
     mk_linha ''P6'' ''Histerectomia (Cancer de Utero)'' (75/10) 3 14000 1 (520/100),
     mk_linha ''P7'' ''Tireoidectomia (Cancer de Tireoide)'' (65/10) (25/10) 12000 0 (480/100),
     mk_linha ''P8'' ''Nefrectomia (Cancer de Rim)'' 8 (45/10) 22000 1 (615/100)]"

definition df :: frame where
  "df = \<lparr>linhas = procedimentos, peso = None\<rparr>"

section \<open>Weights of the objective\<close>

text \<open>
  The \<open>if\<close>/\<open>elif\<close>/\<open>else\<close> chain of both solvers: the criterion is compared with two
  strings, and every other string takes the last branch.
\<close>

definition pesos :: "string \<Rightarrow> linha list \<Rightarrow> fval list" where
  "pesos criterio ls =
     (if criterio = ''gravidade'' then map (\<lambda>l. Fin (gravidade l)) ls
      else if criterio = ''incidencia'' then map (\<lambda>l. Fin (incidencia_pe l)) ls
      else map (\<lambda>l. fmul (fdiv_int (gravidade l) (custo_r l)) 10000) ls)"

section \<open>The greedy heuristic \<open>resolver_simplex_guloso\<close>\<close>

text \<open>
  \<open>sort_values('peso', ascending=False)\<close>: descending weights, infinities at their
  ends, NaN last. pandas fixes no order among rows of equal weight; here they stay in
  table order. The tables of the scripts have no two equal weights.
\<close>

fun chave_desc :: "fval \<Rightarrow> nat \<times> rat" where
  "chave_desc PInf = (0, 0)"
| "chave_desc (Fin r) = (1, - r)"
| "chave_desc NInf = (2, 0)"
| "chave_desc NaN = (3, 0)"

definition sort_values_peso :: "(linha \<times> fval) list \<Rightarrow> (linha \<times> fval) list" where
  "sort_values_peso rows = sort_key (\<lambda>r. chave_desc (snd r)) rows"

record item =
  ID :: string
  Procedimento :: string
  Quantidade :: int
  Gravidade :: rat
  Tempo_Total_h :: rat
  Custo_Total_R :: int
  Leitos_UTI :: int
  Peso :: fval

record estado =
  solucao :: "item list"
  orcamento_usado :: int
  tempo_usado :: rat
  uti_usada :: int
  valor_objetivo :: fval

definition estado_inicial :: estado where
  "estado_inicial =
     \<lparr>solucao = [], orcamento_usado = 0, tempo_usado = 0, uti_usada = 0,
      valor_objetivo = Fin 0\<rparr>"

text \<open>
  \<open>qtd_max\<close> of one row: \<open>//\<close> on integers and \<open>/\<close> on floats raise on a zero divisor;
  a row without ICU need has \<open>float('inf')\<close> as its third bound, which never is the
  minimum.
\<close>

definition qtd_max :: "int \<Rightarrow> rat \<Rightarrow> int \<Rightarrow> estado \<Rightarrow> linha \<Rightarrow> py_error + int" where
  "qtd_max orcamento horas_sala leitos_uti s proc =
     (if custo_r proc = 0 then Inl ZeroDivisionError
      else let max_por_orcamento = (orcamento - orcamento_usado s) div custo_r proc in
        if tempo_h proc = 0 then Inl ZeroDivisionError
        else let max_por_tempo = (horas_sala - tempo_usado s) / tempo_h proc in
          if 0 < uti proc
          then let max_por_uti = (leitos_uti - uti_usada s) div uti proc in
            Inr (trunc_int (min (of_int max_por_orcamento)
                                (min max_por_tempo (of_int max_por_uti))))
          else Inr (trunc_int (min (of_int max_por_orcamento) max_por_tempo)))"

definition adiciona :: "estado \<Rightarrow> linha \<Rightarrow> fval \<Rightarrow> int \<Rightarrow> estado" where
  "adiciona s proc w q =
     \<lparr>solucao = solucao s @
        [\<lparr>ID = id_p proc, Procedimento = procedimento proc, Quantidade = q,
          Gravidade = gravidade proc, Tempo_Total_h = of_int q * tempo_h proc,
          Custo_Total_R = q * custo_r proc, Leitos_UTI = q * uti proc, Peso = w\<rparr>],
      orcamento_usado = orcamento_usado s + q * custo_r proc,
      tempo_usado = tempo_usado s + of_int q * tempo_h proc,
      uti_usada = uti_usada s + q * uti proc,
      valor_objetivo = fadd (valor_objetivo s) (fmul w (of_int q))\<rparr>"

fun laco :: "int \<Rightarrow> rat \<Rightarrow> int \<Rightarrow> (linha \<times> fval) list \<Rightarrow> estado \<Rightarrow> py_error + estado" where
  "laco orcamento horas_sala leitos_uti [] s = Inr s"
| "laco orcamento horas_sala leitos_uti ((proc, w) # resto) s =
     (case qtd_max orcamento horas_sala leitos_uti s proc of
        Inl e \<Rightarrow> Inl e
      | Inr q \<Rightarrow>
          if 0 < q then laco orcamento horas_sala leitos_uti resto (adiciona s proc w q)
          else laco orcamento horas_sala leitos_uti resto s)"

record metricas =
  m_valor_objetivo :: fval
  m_orcamento_usado :: int
  m_tempo_usado :: rat
  m_uti_usada :: int
  total_cirurgias :: int

text \<open>
  The function assigns the column \<open>peso\<close> of the frame it is given, so the frame is
  part of what it returns.
\<close>

definition resolver_simplex_guloso ::
  "frame \<Rightarrow> int \<Rightarrow> rat \<Rightarrow> int \<Rightarrow> string \<Rightarrow> frame \<times> (py_error + item list \<times> metricas)" where
  "resolver_simplex_guloso d orcamento horas_sala leitos_uti criterio =
     (let ws = pesos criterio (linhas d);
          d' = d\<lparr>peso := Some ws\<rparr>;
          df_sorted = sort_values_peso (zip (linhas d) ws)
      in (d',
          case laco orcamento horas_sala leitos_uti df_sorted estado_inicial of
            Inl e \<Rightarrow> Inl e
          | Inr s \<Rightarrow>
              Inr (solucao s,
                   \<lparr>m_valor_objetivo = valor_objetivo s,
                    m_orcamento_usado = orcamento_usado s,
                    m_tempo_usado = tempo_usado s,
                    m_uti_usada = uti_usada s,
                    total_cirurgias = sum_list (map Quantidade (solucao s))\<rparr>)))"

section \<open>The scenario loop of the greedy script\<close>

record cenario =
  nome :: string
  cen_orcamento :: int
  cen_horas_sala :: rat
  cen_leitos_uti :: int
  prioridade :: string

definition cenarios :: "(string \<times> cenario) list" where
  "cenarios =
    [(''1_REAL'', \<lparr>nome = ''Cenario Real - PROCAPE/HCP'', cen_orcamento = 500000,
        cen_horas_sala = 480, cen_leitos_uti = 15, prioridade = ''incidencia''\<rparr>),
     (''2_OTIMISTA'', \<lparr>nome = ''Cenario Otimista - Investimento Adicional'',
        cen_orcamento = 800000, cen_horas_sala = 720, cen_leitos_uti = 25,
        prioridade = ''gravidade''\<rparr>),
     (''3_PESSIMISTA'', \<lparr>nome = ''Cenario Pessimista - Corte Orcamentario'',
        cen_orcamento = 300000, cen_horas_sala = 320, cen_leitos_uti = 8,
        prioridade = ''gravidade''\<rparr>)]"

datatype relatorio =
  Plano_otimo "item list" metricas
| Nenhuma_solucao_viavel

text \<open>
  One turn of the loop over \<open>cenarios\<close>: the heuristic runs on \<open>df.copy()\<close>, so the
  frame it changes is dropped. A plan that is not empty is printed with the three usage
  percentages, each a division by the scenario's capacity; an empty plan is printed as
  "Nenhuma solucao viavel encontrada (recursos insuficientes)".
\<close>

definition processa_cenario :: "frame \<Rightarrow> cenario \<Rightarrow> py_error + relatorio" where
  "processa_cenario d cen =
     (case snd (resolver_simplex_guloso d (cen_orcamento cen) (cen_horas_sala cen)
                  (cen_leitos_uti cen) (prioridade cen)) of
        Inl e \<Rightarrow> Inl e
      | Inr (sol, met) \<Rightarrow>
          if sol \<noteq> [] then
            if cen_horas_sala cen = 0 then Inl ZeroDivisionError
            else if cen_orcamento cen = 0 then Inl ZeroDivisionError
            else if cen_leitos_uti cen = 0 then Inl ZeroDivisionError
            else Inr (Plano_otimo sol met)
          else Inr Nenhuma_solucao_viavel)"

section \<open>The integer program of \<open>otimizar_cirurgias_pulp\<close>\<close>

text \<open>
  What the function hands to PuLP: one integer variable per row with lower bound 0,
  the objective \<open>lpSum(w[i] * x[i])\<close> and the constraints \<open>lpSum(a[i] * x[i]) <= b\<close>
  added with \<open>prob += ...\<close>.
\<close>

record lp =
  objetivo :: "rat list"
  restricoes :: "(rat list \<times> rat) list"

definition lpSum :: "rat list \<Rightarrow> int list \<Rightarrow> rat" where
  "lpSum a x = sum_list (map2 (\<lambda>c v. c * of_int v) a x)"

definition valor :: "lp \<Rightarrow> int list \<Rightarrow> rat" where
  "valor p x = lpSum (objetivo p) x"

definition viavel :: "lp \<Rightarrow> int list \<Rightarrow> bool" where
  "viavel p x \<longleftrightarrow>
     length x = length (objetivo p) \<and> list_all (\<lambda>v. 0 \<le> v) x \<and>
     list_all (\<lambda>(a, b). lpSum a x \<le> b) (restricoes p)"

text \<open>
  The objective coefficients are the weights. A weight that is not finite (zero cost
  under the cost-benefit branch) is no coefficient of a linear program: the model stops
  there with \<open>None\<close>.
\<close>

fun finitos :: "fval list \<Rightarrow> rat list option" where
  "finitos [] = Some []"
| "finitos (Fin r # ws) = map_option ((#) r) (finitos ws)"
| "finitos (w # ws) = None"

definition monta_problema :: "frame \<Rightarrow> int \<Rightarrow> rat \<Rightarrow> int \<Rightarrow> string \<Rightarrow> lp option" where
  "monta_problema d orcamento horas_sala leitos_uti criterio =
     (case finitos (pesos criterio (linhas d)) of
        None \<Rightarrow> None
      | Some w \<Rightarrow>
          Some \<lparr>objetivo = w,
                restricoes =
                  [(map (\<lambda>l. of_int (custo_r l)) (linhas d), of_int orcamento),
                   (map tempo_h (linhas d), horas_sala),
                   (map (\<lambda>l. of_int (uti l)) (linhas d), of_int leitos_uti)]\<rparr>)"

text \<open>
  \<open>prob.solve(PULP_CBC_CMD(msg=0))\<close> and \<open>LpStatus[prob.status]\<close>. The solver is a
  library outside the repository; the relation states what its three final statuses
  mean for the program it was given. It returns any one optimum, so it is a relation.
  The two other entries of \<open>LpStatus\<close>, "Not Solved" and "Undefined", are given no
  meaning here.
\<close>

datatype saida = Optimal "int list" | Infeasible | Unbounded

inductive solve :: "lp \<Rightarrow> saida \<Rightarrow> bool" where
  solve_Optimal:
    "viavel p x \<Longrightarrow> (\<forall>y. viavel p y \<longrightarrow> valor p y \<le> valor p x) \<Longrightarrow> solve p (Optimal x)"
| solve_Infeasible:
    "(\<forall>x. \<not> viavel p x) \<Longrightarrow> solve p Infeasible"
| solve_Unbounded:
    "viavel p x0 \<Longrightarrow> (\<forall>M. \<exists>x. viavel p x \<and> M < valor p x) \<Longrightarrow> solve p Unbounded"

text \<open>
  The function from its first line to the status of the solve and
  \<open>value(prob.objective)\<close>: the frame is only read, and is returned as it was given.
  The table of the plan that the function then builds from the variables
  (\<open>x[i].varValue()\<close> and the four column sums) is reporting and is left out.
\<close>

inductive otimizar_cirurgias_pulp ::
  "frame \<Rightarrow> int \<Rightarrow> rat \<Rightarrow> int \<Rightarrow> string \<Rightarrow> frame \<times> saida \<times> rat option \<Rightarrow> bool" where
  "monta_problema d orcamento horas_sala leitos_uti criterio = Some p \<Longrightarrow>
   solve p r \<Longrightarrow>
   otimizar_cirurgias_pulp d orcamento horas_sala leitos_uti criterio
     (d, r, case r of Optimal x \<Rightarrow> Some (valor p x) | _ \<Rightarrow> None)"

text \<open>
  The worked case printed by the greedy script: one room with 6 free hours, one ICU
  bed, three procedures of weight 10, 8, 6, duration 6, 3, 2 hours, of which the first
  two need the ICU. No cost and no budget are given, so the program has two constraints.
\<close>

definition exemplo_didatico :: lp where
  "exemplo_didatico =
     \<lparr>objetivo = [10, 8, 6], restricoes = [([6, 3, 2], 6), ([1, 1, 0], 1)]\<rparr>"

text \<open>
  The three patients of the worked case as a frame of their own: weight, duration and
  ICU need as printed there; cost and incidence of the same procedures in the table.
\<close>

definition pacientes_na_fila :: frame where
  "pacientes_na_fila =
     \<lparr>linhas =
        [mk_linha ''1'' ''Gastrectomia (Cancer Estomago Avancado)'' 10 6 28000 1 (736/100),
         mk_linha ''2'' ''Mastectomia (Cancer de Mama)'' 8 3 15000 1 (362/100),
         mk_linha ''3'' ''Tireoidectomia (Cancer Tireoide)'' 6 2 12000 0 (480/100)],
      peso = None\<rparr>"

section \<open>Valid inputs\<close>

definition catalogo_valido :: "linha list \<Rightarrow> bool" where
  "catalogo_valido ls \<longleftrightarrow>
     list_all (\<lambda>l. 0 < custo_r l \<and> 0 < tempo_h l \<and> (uti l = 0 \<or> uti l = 1)) ls"

section \<open>Predicates and readings used in the statements\<close>



text \<open>An entry of the plan is the dictionary the loop builds for row \<open>l\<close> of weight \<open>w\<close>.\<close>

definition item_de :: "linha \<Rightarrow> fval \<Rightarrow> item \<Rightarrow> bool" where
  "item_de l w it \<longleftrightarrow>
     0 < Quantidade it \<and> ID it = id_p l \<and> Procedimento it = procedimento l \<and>
     Gravidade it = gravidade l \<and>
     Tempo_Total_h it = of_int (Quantidade it) * tempo_h l \<and>
     Custo_Total_R it = Quantidade it * custo_r l \<and>
     Leitos_UTI it = Quantidade it * uti l \<and> Peso it = w"

section \<open>Weights: both solvers use the same three formulas\<close>


lemma peso_custo_beneficio:
  "c \<noteq> 0 \<Longrightarrow> fmul (fdiv_int g c) 10000 = Fin (g / of_int c * 10000)"
  by (simp add: fdiv_int_def)

lemma finitos_Some: "finitos ws = Some rs \<Longrightarrow> map Fin rs = ws"
  by (induction ws arbitrary: rs rule: finitos.induct) auto

lemma objetivo_monta:
  "monta_problema d B H L c = Some p \<Longrightarrow> map Fin (objetivo p) = pesos c (linhas d)"
  by (auto simp: monta_problema_def finitos_Some split: option.splits)

lemma peso_guloso:
  "peso (fst (resolver_simplex_guloso d B H L c)) = Some (pesos c (linhas d))"
  by (simp add: resolver_simplex_guloso_def Let_def)

subsection \<open>The loop raises only on a zero cost or a zero duration\<close>

lemma qtd_max_Inr:
  "custo_r proc \<noteq> 0 \<Longrightarrow> tempo_h proc \<noteq> 0 \<Longrightarrow> \<exists>q. qtd_max B H L s proc = Inr q"
  by (simp add: qtd_max_def Let_def)


lemma laco_Inr:
  "\<forall>r\<in>set rows. custo_r (fst r) \<noteq> 0 \<and> tempo_h (fst r) \<noteq> 0 \<Longrightarrow>
   \<exists>s'. laco B H L rows s = Inr s'"
proof (induction rows arbitrary: s)
  case Nil
  then show ?case by simp
next
  case (Cons r rows)
  obtain proc w where r: "r = (proc, w)" by (cases r)
  from Cons.prems r obtain q where q: "qtd_max B H L s proc = Inr q"
    using qtd_max_Inr [of proc B H L s] by auto
  from Cons.prems have rest: "\<forall>r\<in>set rows. custo_r (fst r) \<noteq> 0 \<and> tempo_h (fst r) \<noteq> 0"
    by simp
  show ?case
    using Cons.IH [OF rest] by (simp add: r q)
qed


lemma set_sort_values_peso: "set (sort_values_peso rows) = set rows"
  by (simp add: sort_values_peso_def)

lemma fst_set_zip: "r \<in> set (zip ls ws) \<Longrightarrow> fst r \<in> set ls"
  by (cases r) (auto dest: set_zip_leftD)

lemma guloso_Inr:
  assumes "\<forall>l\<in>set (linhas d). custo_r l \<noteq> 0 \<and> tempo_h l \<noteq> 0"
  shows "\<exists>sol met. snd (resolver_simplex_guloso d B H L c) = Inr (sol, met)"
proof -
  have "\<forall>r\<in>set (sort_values_peso (zip (linhas d) (pesos c (linhas d)))).
          custo_r (fst r) \<noteq> 0 \<and> tempo_h (fst r) \<noteq> 0"
    using assms by (auto simp: set_sort_values_peso dest: fst_set_zip)
  from laco_Inr [OF this, of B H L estado_inicial]
  show ?thesis by (auto simp: resolver_simplex_guloso_def Let_def)
qed


subsection \<open>The heuristic stays within the capacities\<close>











subsection \<open>The plan of the heuristic as a vector in table order\<close>



lemma length_pesos: "length (pesos c ls) = length ls"
  by (simp add: pesos_def)


lemma laco_de_guloso:
  assumes "snd (resolver_simplex_guloso d B H L c) = Inr (sol, met)"
  shows "\<exists>s. laco B H L (sort_values_peso (zip (linhas d) (pesos c (linhas d))))
                estado_inicial = Inr s \<and>
             sol = solucao s \<and> m_valor_objetivo met = valor_objetivo s \<and>
             m_orcamento_usado met = orcamento_usado s \<and>
             m_tempo_usado met = tempo_usado s \<and> m_uti_usada met = uti_usada s \<and>
             total_cirurgias met = sum_list (map Quantidade (solucao s))"
  using assms by (auto simp: resolver_simplex_guloso_def Let_def split: sum.splits)


subsection \<open>The plan and its totals\<close>

lemma laco_solucao:
  "laco B H L rows s = Inr s' \<Longrightarrow>
   \<exists>novos. solucao s' = solucao s @ novos \<and>
     orcamento_usado s' = orcamento_usado s + sum_list (map Custo_Total_R novos) \<and>
     tempo_usado s' = tempo_usado s + sum_list (map Tempo_Total_h novos) \<and>
     uti_usada s' = uti_usada s + sum_list (map Leitos_UTI novos) \<and>
     list_all (\<lambda>it. list_ex (\<lambda>r. item_de (fst r) (snd r) it) rows) novos"
proof (induction rows arbitrary: s)
  case Nil
  then show ?case by simp
next
  case (Cons r rows)
  obtain proc w where r: "r = (proc, w)" by (cases r)
  from Cons.prems r obtain q where q: "qtd_max B H L s proc = Inr q"
    by (cases "qtd_max B H L s proc") auto
  show ?case
  proof (cases "0 < q")
    case True
    with Cons.prems r q have "laco B H L rows (adiciona s proc w q) = Inr s'" by simp
    from Cons.IH [OF this] obtain novos where n:
      "solucao s' = solucao (adiciona s proc w q) @ novos"
      "orcamento_usado s' = orcamento_usado (adiciona s proc w q) + sum_list (map Custo_Total_R novos)"
      "tempo_usado s' = tempo_usado (adiciona s proc w q) + sum_list (map Tempo_Total_h novos)"
      "uti_usada s' = uti_usada (adiciona s proc w q) + sum_list (map Leitos_UTI novos)"
      "list_all (\<lambda>it. list_ex (\<lambda>r. item_de (fst r) (snd r) it) rows) novos"
      by blast
    define it where "it = \<lparr>ID = id_p proc, Procedimento = procedimento proc, Quantidade = q,
          Gravidade = gravidade proc, Tempo_Total_h = of_int q * tempo_h proc,
          Custo_Total_R = q * custo_r proc, Leitos_UTI = q * uti proc, Peso = w\<rparr>"
    have i: "item_de proc w it" using True by (simp add: item_de_def it_def)
    have "solucao s' = solucao s @ (it # novos)"
      using n(1) by (simp add: adiciona_def it_def)
    moreover have "orcamento_usado s' = orcamento_usado s + sum_list (map Custo_Total_R (it # novos))"
      using n(2) by (simp add: adiciona_def it_def)
    moreover have "tempo_usado s' = tempo_usado s + sum_list (map Tempo_Total_h (it # novos))"
      using n(3) by (simp add: adiciona_def it_def)
    moreover have "uti_usada s' = uti_usada s + sum_list (map Leitos_UTI (it # novos))"
      using n(4) by (simp add: adiciona_def it_def)
    moreover have "list_all (\<lambda>it. list_ex (\<lambda>r. item_de (fst r) (snd r) it) (r # rows)) (it # novos)"
      using n(5) i by (simp add: r list_all_iff)
    ultimately show ?thesis by blast
  next
    case False
    with Cons.prems r q have "laco B H L rows s = Inr s'" by simp
    from Cons.IH [OF this] obtain novos where n:
      "solucao s' = solucao s @ novos"
      "orcamento_usado s' = orcamento_usado s + sum_list (map Custo_Total_R novos)"
      "tempo_usado s' = tempo_usado s + sum_list (map Tempo_Total_h novos)"
      "uti_usada s' = uti_usada s + sum_list (map Leitos_UTI novos)"
      "list_all (\<lambda>it. list_ex (\<lambda>r. item_de (fst r) (snd r) it) rows) novos"
      by blast
    from n(5) have "list_all (\<lambda>it. list_ex (\<lambda>r. item_de (fst r) (snd r) it) (r # rows)) novos"
      by (simp add: list_all_iff)
    with n show ?thesis by blast
  qed
qed

lemma guloso_solucao:
  assumes g: "snd (resolver_simplex_guloso d B H L c) = Inr (sol, met)"
  shows "m_orcamento_usado met = sum_list (map Custo_Total_R sol) \<and>
         m_tempo_usado met = sum_list (map Tempo_Total_h sol) \<and>
         m_uti_usada met = sum_list (map Leitos_UTI sol) \<and>
         total_cirurgias met = sum_list (map Quantidade sol) \<and>
         list_all (\<lambda>it. list_ex (\<lambda>r. item_de (fst r) (snd r) it)
                     (zip (linhas d) (pesos c (linhas d)))) sol"
proof -
  from laco_de_guloso [OF g] obtain s where
    s: "laco B H L (sort_values_peso (zip (linhas d) (pesos c (linhas d)))) estado_inicial = Inr s"
    and m: "sol = solucao s" "m_orcamento_usado met = orcamento_usado s"
      "m_tempo_usado met = tempo_usado s" "m_uti_usada met = uti_usada s"
      "total_cirurgias met = sum_list (map Quantidade (solucao s))"
    by blast
  from laco_solucao [OF s] show ?thesis
    using m by (auto simp: estado_inicial_def list_ex_iff set_sort_values_peso)
qed


lemma laco_valor:
  "laco B H L rows s = Inr s' \<Longrightarrow>
   \<exists>novos. solucao s' = solucao s @ novos \<and>
     valor_objetivo s' =
       foldl fadd (valor_objetivo s)
         (map (\<lambda>it. fmul (Peso it) (of_int (Quantidade it))) novos)"
proof (induction rows arbitrary: s)
  case Nil
  then show ?case by simp
next
  case (Cons r rows)
  obtain proc w where r: "r = (proc, w)" by (cases r)
  from Cons.prems r obtain q where q: "qtd_max B H L s proc = Inr q"
    by (cases "qtd_max B H L s proc") auto
  show ?case
  proof (cases "0 < q")
    case True
    with Cons.prems r q have "laco B H L rows (adiciona s proc w q) = Inr s'" by simp
    from Cons.IH [OF this] obtain novos where n:
      "solucao s' = solucao (adiciona s proc w q) @ novos"
      "valor_objetivo s' = foldl fadd (valor_objetivo (adiciona s proc w q))
         (map (\<lambda>it. fmul (Peso it) (of_int (Quantidade it))) novos)"
      by blast
    define it where "it = \<lparr>ID = id_p proc, Procedimento = procedimento proc, Quantidade = q,
          Gravidade = gravidade proc, Tempo_Total_h = of_int q * tempo_h proc,
          Custo_Total_R = q * custo_r proc, Leitos_UTI = q * uti proc, Peso = w\<rparr>"
    have "solucao s' = solucao s @ (it # novos)"
      using n(1) by (simp add: adiciona_def it_def)
    moreover have "valor_objetivo s' = foldl fadd (valor_objetivo s)
         (map (\<lambda>it. fmul (Peso it) (of_int (Quantidade it))) (it # novos))"
      using n(2) by (simp add: adiciona_def it_def)
    ultimately show ?thesis by blast
  next
    case False
    with Cons.prems r q have "laco B H L rows s = Inr s'" by simp
    from Cons.IH [OF this] show ?thesis .
  qed
qed

lemma guloso_valor:
  assumes g: "snd (resolver_simplex_guloso d B H L c) = Inr (sol, met)"
  shows "m_valor_objetivo met =
     foldl fadd (Fin 0) (map (\<lambda>it. fmul (Peso it) (of_int (Quantidade it))) sol)"
proof -
  from laco_de_guloso [OF g] obtain s where
    s: "laco B H L (sort_values_peso (zip (linhas d) (pesos c (linhas d)))) estado_inicial = Inr s"
    and m: "sol = solucao s" "m_valor_objetivo met = valor_objetivo s"
    by blast
  from laco_valor [OF s] show ?thesis
    using m by (auto simp: estado_inicial_def)
qed

section \<open>The integer program: feasible points and bounds\<close>

lemma length_objetivo:
  "monta_problema d B H L c = Some p \<Longrightarrow> length (objetivo p) = length (linhas d)"
  using objetivo_monta [of d B H L c p] length_pesos [of c "linhas d"]
  by (metis length_map)

lemma viavel_monta:
  assumes "monta_problema d B H L c = Some p"
  shows "viavel p x \<longleftrightarrow>
     length x = length (linhas d) \<and> list_all (\<lambda>v. 0 \<le> v) x \<and>
     lpSum (map (\<lambda>l. of_int (custo_r l)) (linhas d)) x \<le> of_int B \<and>
     lpSum (map tempo_h (linhas d)) x \<le> H \<and>
     lpSum (map (\<lambda>l. of_int (uti l)) (linhas d)) x \<le> of_int L"
proof -
  from assms have "restricoes p =
      [(map (\<lambda>l. of_int (custo_r l)) (linhas d), of_int B),
       (map tempo_h (linhas d), H),
       (map (\<lambda>l. of_int (uti l)) (linhas d), of_int L)]"
    by (auto simp: monta_problema_def split: option.splits)
  then show ?thesis
    by (simp add: viavel_def length_objetivo [OF assms])
qed


lemma lpSum_zeros: "lpSum a (replicate n 0) = 0"
proof (induction a arbitrary: n)
  case Nil
  then show ?case by (simp add: lpSum_def)
next
  case (Cons c a)
  then show ?case by (cases n) (simp_all add: lpSum_def)
qed

lemma finitos_Fin:
  "list_all (\<lambda>w. \<exists>r. w = Fin r) ws \<Longrightarrow> \<exists>rs. finitos ws = Some rs"
  by (induction ws rule: finitos.induct) auto

lemma monta_Some:
  assumes "c = ''gravidade'' \<or> c = ''incidencia'' \<or> list_all (\<lambda>l. custo_r l \<noteq> 0) (linhas d)"
  shows "\<exists>p. monta_problema d B H L c = Some p"
proof -
  have "list_all (\<lambda>w. \<exists>r. w = Fin r) (pesos c (linhas d))"
    using assms by (auto simp: pesos_def list_all_iff peso_custo_beneficio)
  from finitos_Fin [OF this] show ?thesis
    by (auto simp: monta_problema_def)
qed

lemma lpSum_Cons: "lpSum (c # a) (v # x) = c * of_int v + lpSum a x"
  by (simp add: lpSum_def)

lemma lpSum_nonneg:
  "length x = length a \<Longrightarrow> list_all (\<lambda>c. 0 \<le> c) a \<Longrightarrow> list_all (\<lambda>v. 0 \<le> v) x \<Longrightarrow>
   0 \<le> lpSum a x"
proof (induction x a rule: list_induct2)
  case Nil
  then show ?case by (simp add: lpSum_def)
next
  case (Cons v x c a)
  then show ?case by (simp add: lpSum_Cons)
qed

lemma entrada_limitada:
  "length x = length a \<Longrightarrow> list_all (\<lambda>c. 1 \<le> c) a \<Longrightarrow> list_all (\<lambda>v. 0 \<le> v) x \<Longrightarrow>
   list_all (\<lambda>v. of_int v \<le> lpSum a x) x"
proof (induction x a rule: list_induct2)
  case Nil
  then show ?case by simp
next
  case (Cons v x c a)
  from Cons.prems have c: "1 \<le> c" and v: "0 \<le> v" and a: "list_all (\<lambda>c. 1 \<le> c) a"
    and x: "list_all (\<lambda>v. 0 \<le> v) x" by simp_all
  from a have a0: "list_all (\<lambda>c. 0 \<le> c) a" by (auto simp: list_all_iff)
  have rest: "0 \<le> lpSum a x" by (rule lpSum_nonneg [OF Cons.hyps a0 x])
  have "(of_int v :: rat) * 1 \<le> c * of_int v" using c v
    by (metis mult.commute mult_left_mono of_int_0_le_iff)
  then have head: "(of_int v :: rat) \<le> c * of_int v" by simp
  have cv: "0 \<le> c * of_int v" using c v by simp
  from Cons.IH [OF a x] have "list_all (\<lambda>u. of_int u \<le> c * of_int v + lpSum a x) x"
    using cv by (auto simp: list_all_iff intro: order_trans)
  with head rest show ?case by (simp add: lpSum_Cons)
qed

lemma lpSum_limitada:
  "length x = length w \<Longrightarrow> list_all (\<lambda>v. 0 \<le> v \<and> of_int v \<le> b) x \<Longrightarrow>
   lpSum w x \<le> sum_list (map abs w) * b"
proof (induction x w rule: list_induct2)
  case Nil
  then show ?case by (simp add: lpSum_def)
next
  case (Cons v x c w)
  from Cons.prems have v: "0 \<le> v" "of_int v \<le> b" and x: "list_all (\<lambda>v. 0 \<le> v \<and> of_int v \<le> b) x"
    by simp_all
  have "c * of_int v \<le> \<bar>c\<bar> * of_int v" using v(1) by (simp add: mult_right_mono)
  also have "\<dots> \<le> \<bar>c\<bar> * b" using v(2) by (simp add: mult_left_mono)
  finally have "c * of_int v \<le> \<bar>c\<bar> * b" .
  with Cons.IH [OF x] show ?case by (simp add: lpSum_Cons distrib_right)
qed

lemma viavel_limitado:
  assumes m: "monta_problema d B H L c = Some p"
    and pos: "list_all (\<lambda>l. 0 < custo_r l) (linhas d)"
    and f: "viavel p x"
  shows "list_all (\<lambda>v. 0 \<le> v \<and> v \<le> B) x"
proof -
  let ?a = "map (\<lambda>l. of_int (custo_r l) :: rat) (linhas d)"
  from f have x: "length x = length (linhas d)" "list_all (\<lambda>v. 0 \<le> v) x"
    "lpSum ?a x \<le> of_int B"
    by (simp_all add: viavel_monta [OF m])
  have a: "list_all (\<lambda>c. 1 \<le> c) ?a"
    using pos by (auto simp: list_all_iff)
  have "list_all (\<lambda>v. of_int v \<le> lpSum ?a x) x"
    by (rule entrada_limitada) (use x a in simp_all)
  then have "list_all (\<lambda>v. (of_int v :: rat) \<le> of_int B) x"
    using x(3) by (auto simp: list_all_iff intro: order_trans)
  then have "list_all (\<lambda>v. v \<le> B) x" by (simp add: list_all_iff)
  with x(2) show ?thesis by (simp add: list_all_iff)
qed

lemma valor_limitado:
  assumes m: "monta_problema d B H L c = Some p"
    and pos: "list_all (\<lambda>l. 0 < custo_r l) (linhas d)"
    and f: "viavel p x"
  shows "valor p x \<le> sum_list (map abs (objetivo p)) * of_int B"
proof -
  from viavel_limitado [OF m pos f]
  have "list_all (\<lambda>v. 0 \<le> v \<and> (of_int v :: rat) \<le> of_int B) x"
    by (simp add: list_all_iff)
  moreover from f have "length x = length (objetivo p)" by (simp add: viavel_def)
  ultimately show ?thesis unfolding valor_def by (rule lpSum_limitada [rotated])
qed

lemma viaveis_finito:
  assumes m: "monta_problema d B H L c = Some p"
    and pos: "list_all (\<lambda>l. 0 < custo_r l) (linhas d)"
  shows "finite {x. viavel p x}"
proof -
  have "{x. viavel p x} \<subseteq> {x. set x \<subseteq> {0..B} \<and> length x = length (linhas d)}"
  proof
    fix x assume "x \<in> {x. viavel p x}"
    then have f: "viavel p x" by simp
    from viavel_limitado [OF m pos f] have "set x \<subseteq> {0..B}" by (auto simp: list_all_iff)
    moreover from f have "length x = length (linhas d)" by (simp add: viavel_monta [OF m])
    ultimately show "x \<in> {x. set x \<subseteq> {0..B} \<and> length x = length (linhas d)}" by simp
  qed
  moreover have "finite {x. set x \<subseteq> {0..B} \<and> length x = length (linhas d)}"
    by (rule finite_lists_length_eq) simp
  ultimately show ?thesis by (rule finite_subset)
qed

lemma otimo_existe:
  assumes m: "monta_problema d B H L c = Some p"
    and pos: "list_all (\<lambda>l. 0 < custo_r l) (linhas d)"
    and f: "viavel p x0"
  shows "\<exists>x. solve p (Optimal x)"
proof -
  let ?F = "{x. viavel p x}"
  have fin: "finite (valor p ` ?F)" using viaveis_finito [OF m pos] by simp
  have ne: "valor p ` ?F \<noteq> {}" using f by auto
  from Max_in [OF fin ne] obtain x where x: "viavel p x" "valor p x = Max (valor p ` ?F)"
    by auto
  have "\<forall>y. viavel p y \<longrightarrow> valor p y \<le> valor p x"
    using Max_ge [OF fin] x(2) by auto
  with x(1) show ?thesis by (blast intro: solve_Optimal)
qed

lemma viavel_zeros:
  assumes m: "monta_problema d B H L c = Some p" and "0 \<le> B" "0 \<le> H" "0 \<le> L"
  shows "viavel p (replicate (length (linhas d)) 0) \<and>
         valor p (replicate (length (linhas d)) 0) = 0"
  using assms(2-4) by (simp add: viavel_monta [OF m] lpSum_zeros valor_def list_all_iff)

lemma nao_ilimitado:
  assumes m: "monta_problema d B H L c = Some p"
    and pos: "list_all (\<lambda>l. 0 < custo_r l) (linhas d)"
  shows "\<not> solve p Unbounded"
proof
  assume "solve p Unbounded"
  then have "\<forall>M. \<exists>x. viavel p x \<and> M < valor p x" by (auto elim: solve.cases)
  then obtain x where "viavel p x" "sum_list (map abs (objetivo p)) * of_int B < valor p x"
    by blast
  with valor_limitado [OF m pos] show False by force
qed

lemma solve_Optimal_D:
  "solve p (Optimal x) \<Longrightarrow> viavel p x \<and> (\<forall>y. viavel p y \<longrightarrow> valor p y \<le> valor p x)"
  by (auto elim: solve.cases)

lemma solve_Infeasible_D: "solve p Infeasible \<Longrightarrow> \<not> viavel p x"
  by (auto elim: solve.cases)

lemma pulp_D:
  "otimizar_cirurgias_pulp d B H L c (d', r, v) \<Longrightarrow>
   d' = d \<and> (\<exists>p. monta_problema d B H L c = Some p \<and> solve p r \<and>
     v = (case r of Optimal x \<Rightarrow> Some (valor p x) | _ \<Rightarrow> None))"
  by (auto elim: otimizar_cirurgias_pulp.cases)

section \<open>The worked case, solved\<close>

lemma monta_pacientes:
  "monta_problema pacientes_na_fila B H L ''gravidade'' =
     Some \<lparr>objetivo = [10, 8, 6],
           restricoes = [([28000, 15000, 12000], of_int B), ([6, 3, 2], H),
                         ([1, 1, 0], of_int L)]\<rparr>"
  by (simp add: monta_problema_def pacientes_na_fila_def mk_linha_def pesos_def)

lemma lista3: "length x = 3 \<Longrightarrow> \<exists>a b c. x = [a, b, c]"
  by (cases x; simp; cases "tl x"; simp; cases "tl (tl x)"; auto)

lemma pacientes_otimo:
  assumes k: "0 \<le> k" "12000 * k \<le> B"
  shows "solve \<lparr>objetivo = [10, 8, 6],
           restricoes = [([28000, 15000, 12000], of_int B), ([6, 3, 2], of_int (2 * k)),
                         ([1, 1, 0], 1)]\<rparr> (Optimal [0, 0, k])"
proof (rule solve_Optimal)
  let ?p = "\<lparr>objetivo = [10, 8, 6],
           restricoes = [([28000, 15000, 12000], of_int B), ([6, 3, 2], of_int (2 * k)),
                         ([1, 1, 0], 1)]\<rparr>"
  have "(of_int (12000 * k) :: rat) \<le> of_int B" using k(2) by (simp only: of_int_le_iff)
  then show "viavel ?p [0, 0, k]"
    using k(1) by (simp add: viavel_def lpSum_def)
  show "\<forall>y. viavel ?p y \<longrightarrow> valor ?p y \<le> valor ?p [0, 0, k]"
  proof (intro allI impI)
    fix y assume v: "viavel ?p y"
    then have "length y = 3" by (simp add: viavel_def)
    from lista3 [OF this] obtain a b c where y: "y = [a, b, c]" by blast
    from v have "0 \<le> a" "0 \<le> b" "0 \<le> c"
      "6 * (of_int a :: rat) + 3 * of_int b + 2 * of_int c \<le> 2 * of_int k"
      by (simp_all add: y viavel_def lpSum_def)
    then have "0 \<le> (of_int a :: rat)" "0 \<le> (of_int b :: rat)"
      "10 * (of_int a :: rat) + 8 * of_int b + 6 * of_int c \<le> 6 * of_int k"
      by simp_all
    then show "valor ?p y \<le> valor ?p [0, 0, k]"
      by (simp add: y valor_def lpSum_def)
  qed
qed


section \<open>The criterion and its weights\<close>

text \<open>
  C9. The weight of a row is its severity under \<open>'gravidade'\<close>, its incidence under
  \<open>'incidencia'\<close>, and severity divided by unit cost, times 10000, under the
  cost-benefit criterion (the division and the product as floats compute them; for a
  cost that is not zero, the rational of that value). The greedy heuristic stores these
  weights in the column \<open>peso\<close>, and the exact model takes them as its objective
  coefficients.
\<close>

theorem pesos_por_criterio:
  "i < length (linhas d) \<Longrightarrow>
   peso (fst (resolver_simplex_guloso d B H L c)) = Some (pesos c (linhas d)) \<and>
   (monta_problema d B H L c = Some p \<longrightarrow> map Fin (objetivo p) = pesos c (linhas d)) \<and>
   pesos ''gravidade'' (linhas d) ! i = Fin (gravidade (linhas d ! i)) \<and>
   pesos ''incidencia'' (linhas d) ! i = Fin (incidencia_pe (linhas d ! i)) \<and>
   pesos ''custo_beneficio'' (linhas d) ! i =
     fmul (fdiv_int (gravidade (linhas d ! i)) (custo_r (linhas d ! i))) 10000 \<and>
   (custo_r (linhas d ! i) \<noteq> 0 \<longrightarrow>
      pesos ''custo_beneficio'' (linhas d) ! i =
        Fin (gravidade (linhas d ! i) / of_int (custo_r (linhas d ! i)) * 10000))"
  by (simp add: peso_guloso objetivo_monta) (simp add: pesos_def peso_custo_beneficio)

theorem pesos_por_criterio_witness:
  "0 < length (linhas df) \<and> custo_r (linhas df ! 0) \<noteq> 0 \<and>
   monta_problema df 500000 480 15 ''custo_beneficio'' =
     Some \<lparr>objetivo = [17 / 3, 13 / 3, 92 / 25, 95 / 28, 14 / 5, 75 / 14, 65 / 12, 40 / 11],
           restricoes =
             [([15000, 18000, 25000, 28000, 35000, 14000, 12000, 22000], 500000),
              ([7 / 2, 4, 5, 6, 11 / 2, 3, 5 / 2, 9 / 2], 480),
              ([1, 1, 1, 1, 1, 1, 0, 1], 15)]\<rparr> \<and>
   pesos ''gravidade'' (linhas df) ! 0 = Fin (17 / 2) \<and>
   pesos ''incidencia'' (linhas df) ! 0 = Fin (181 / 50) \<and>
   pesos ''custo_beneficio'' (linhas df) ! 0 = Fin (17 / 3)"
  using pesos_por_criterio [of 0 df 500000 480 15 "''custo_beneficio''"
      "\<lparr>objetivo = [17 / 3, 13 / 3, 92 / 25, 95 / 28, 14 / 5, 75 / 14, 65 / 12, 40 / 11],
        restricoes =
          [([15000, 18000, 25000, 28000, 35000, 14000, 12000, 22000], 500000),
           ([7 / 2, 4, 5, 6, 11 / 2, 3, 5 / 2, 9 / 2], 480),
           ([1, 1, 1, 1, 1, 1, 0, 1], 15)]\<rparr>"]
  by (simp add: df_def procedimentos_def mk_linha_def monta_problema_def pesos_def
      fdiv_int_def)







lemma pulp_pacientes:
  assumes k: "0 \<le> k" "12000 * k \<le> B"
  shows "otimizar_cirurgias_pulp pacientes_na_fila B (of_int (2 * k)) 1 ''gravidade''
           (pacientes_na_fila, Optimal [0, 0, k], Some (6 * of_int k))"
proof -
  let ?p = "\<lparr>objetivo = [10, 8, 6],
           restricoes = [([28000, 15000, 12000], of_int B), ([6, 3, 2], of_int (2 * k)),
                         ([1, 1, 0], 1)]\<rparr>"
  have m: "monta_problema pacientes_na_fila B (of_int (2 * k)) 1 ''gravidade'' = Some ?p"
    using monta_pacientes [of B "of_int (2 * k)" 1] by simp
  have v: "valor ?p [0, 0, k] = 6 * of_int k" by (simp add: valor_def lpSum_def)
  from otimizar_cirurgias_pulp.intros [OF m pacientes_otimo [OF k]] v
  show ?thesis by simp
qed

section \<open>The exact model\<close>

text \<open>
  C8. When every unit cost and every duration is strictly positive, the objective is
  bounded above on the feasible points of the program (each quantity is at most the
  budget, so the value is at most the budget times the sum of the absolute weights),
  and the status \<open>Unbounded\<close> cannot be the outcome of the solve.
\<close>

theorem ilimitado_inalcancavel:
  "list_all (\<lambda>l. 0 < custo_r l \<and> 0 < tempo_h l) (linhas d) \<Longrightarrow>
   \<exists>p. monta_problema d B H L c = Some p \<and>
       (\<forall>x. viavel p x \<longrightarrow> valor p x \<le> sum_list (map abs (objetivo p)) * of_int B) \<and>
       \<not> solve p Unbounded \<and>
       (\<forall>d' r v. otimizar_cirurgias_pulp d B H L c (d', r, v) \<longrightarrow> r \<noteq> Unbounded)"
proof -
  assume a: "list_all (\<lambda>l. 0 < custo_r l \<and> 0 < tempo_h l) (linhas d)"
  then have pos: "list_all (\<lambda>l. 0 < custo_r l) (linhas d)"
    and nz: "list_all (\<lambda>l. custo_r l \<noteq> 0) (linhas d)"
    by (auto simp: list_all_iff)
  from monta_Some [of c d B H L] nz obtain p where m: "monta_problema d B H L c = Some p"
    by blast
  have b: "\<forall>x. viavel p x \<longrightarrow> valor p x \<le> sum_list (map abs (objetivo p)) * of_int B"
    using valor_limitado [OF m pos] by blast
  have u: "\<not> solve p Unbounded" by (rule nao_ilimitado [OF m pos])
  have "\<forall>d' r v. otimizar_cirurgias_pulp d B H L c (d', r, v) \<longrightarrow> r \<noteq> Unbounded"
    using pulp_D [of d B H L c] m u by fastforce
  with m b u show ?thesis by blast
qed

theorem ilimitado_inalcancavel_witness:
  "list_all (\<lambda>l. 0 < custo_r l \<and> 0 < tempo_h l) (linhas df) \<and>
   (\<exists>p. monta_problema df 500000 480 15 ''incidencia'' = Some p \<and> \<not> solve p Unbounded)"
proof -
  have v: "list_all (\<lambda>l. 0 < custo_r l \<and> 0 < tempo_h l) (linhas df)"
    by (simp add: df_def procedimentos_def mk_linha_def)
  from ilimitado_inalcancavel [OF v, of 500000 480 15 "''incidencia''"] v
  show ?thesis by blast
qed



lemma viavel_capacidades:
  assumes m: "monta_problema d B H L c = Some p"
    and v: "catalogo_valido (linhas d)" and f: "viavel p x"
  shows "0 \<le> B \<and> 0 \<le> H \<and> 0 \<le> L"
proof -
  from f have x: "length x = length (linhas d)" "list_all (\<lambda>v. 0 \<le> v) x"
    "lpSum (map (\<lambda>l. of_int (custo_r l)) (linhas d)) x \<le> of_int B"
    "lpSum (map tempo_h (linhas d)) x \<le> H"
    "lpSum (map (\<lambda>l. of_int (uti l)) (linhas d)) x \<le> of_int L"
    by (simp_all add: viavel_monta [OF m])
  have "0 \<le> lpSum (map (\<lambda>l. of_int (custo_r l)) (linhas d)) x"
    by (rule lpSum_nonneg) (use v x in \<open>auto simp: catalogo_valido_def list_all_iff\<close>)
  with x(3) have "(0 :: rat) \<le> of_int B" by linarith
  then have b: "0 \<le> B" by simp
  have "0 \<le> lpSum (map tempo_h (linhas d)) x"
    by (rule lpSum_nonneg) (use v x in \<open>auto simp: catalogo_valido_def list_all_iff\<close>)
  with x(4) have h: "0 \<le> H" by linarith
  have "0 \<le> lpSum (map (\<lambda>l. of_int (uti l)) (linhas d)) x"
    by (rule lpSum_nonneg) (use v x in \<open>auto simp: catalogo_valido_def list_all_iff\<close>)
  with x(5) have "(0 :: rat) \<le> of_int L" by linarith
  then have "0 \<le> L" by simp
  with b h show ?thesis by simp
qed


lemma guloso_df_sem_orcamento:
  "snd (resolver_simplex_guloso df 10000 480 15 ''gravidade'') =
     Inr ([], \<lparr>m_valor_objetivo = Fin 0, m_orcamento_usado = 0, m_tempo_usado = 0,
               m_uti_usada = 0, total_cirurgias = 0\<rparr>)"
  by (simp add: resolver_simplex_guloso_def df_def procedimentos_def mk_linha_def pesos_def
      sort_values_peso_def qtd_max_def estado_inicial_def trunc_int_def adiciona_def Let_def)

text \<open>
  C3, as the code has it. For a catalog with strictly positive costs and durations and
  an envelope of three non-negative capacities, the all-zero vector satisfies the three
  constraints with objective 0, so the exact solve is never \<open>Infeasible\<close> and has an
  optimum. The heuristic returns a plan without raising; when no procedure fits the plan
  is empty with all totals 0, and the scenario loop prints that case as
  "Nenhuma solucao viavel encontrada (recursos insuficientes)".
\<close>

theorem zero_sempre_viavel:
  "0 \<le> B \<Longrightarrow> 0 \<le> H \<Longrightarrow> 0 \<le> L \<Longrightarrow>
   list_all (\<lambda>l. 0 < custo_r l \<and> 0 < tempo_h l) (linhas d) \<Longrightarrow>
   (\<exists>p. monta_problema d B H L c = Some p \<and>
        viavel p (replicate (length (linhas d)) 0) \<and>
        valor p (replicate (length (linhas d)) 0) = 0 \<and>
        \<not> solve p Infeasible \<and> (\<exists>x. solve p (Optimal x))) \<and>
   (\<forall>d' r v. otimizar_cirurgias_pulp d B H L c (d', r, v) \<longrightarrow> r \<noteq> Infeasible) \<and>
   (\<exists>sol met. snd (resolver_simplex_guloso d B H L c) = Inr (sol, met) \<and>
      (sol = [] \<longrightarrow>
         met = \<lparr>m_valor_objetivo = Fin 0, m_orcamento_usado = 0, m_tempo_usado = 0,
                m_uti_usada = 0, total_cirurgias = 0\<rparr> \<and>
         processa_cenario d
           \<lparr>nome = n, cen_orcamento = B, cen_horas_sala = H, cen_leitos_uti = L,
            prioridade = c\<rparr> = Inr Nenhuma_solucao_viavel))"
proof -
  assume caps: "0 \<le> B" "0 \<le> H" "0 \<le> L"
    and a: "list_all (\<lambda>l. 0 < custo_r l \<and> 0 < tempo_h l) (linhas d)"
  from a have pos: "list_all (\<lambda>l. 0 < custo_r l) (linhas d)"
    and nz: "list_all (\<lambda>l. custo_r l \<noteq> 0) (linhas d)"
    and nz2: "\<forall>l\<in>set (linhas d). custo_r l \<noteq> 0 \<and> tempo_h l \<noteq> 0"
    by (auto simp: list_all_iff)
  from monta_Some [of c d B H L] nz obtain p where m: "monta_problema d B H L c = Some p"
    by blast
  note z = viavel_zeros [OF m caps]
  from z have ni: "\<not> solve p Infeasible" using solve_Infeasible_D by blast
  from z otimo_existe [OF m pos] have ex: "\<exists>x. solve p (Optimal x)" by blast
  have pu: "\<forall>d' r v. otimizar_cirurgias_pulp d B H L c (d', r, v) \<longrightarrow> r \<noteq> Infeasible"
    using pulp_D [of d B H L c] m ni by fastforce
  from guloso_Inr [OF nz2, of B H L c] obtain sol met where
    g: "snd (resolver_simplex_guloso d B H L c) = Inr (sol, met)" by blast
  have "met = \<lparr>m_valor_objetivo = Fin 0, m_orcamento_usado = 0, m_tempo_usado = 0,
                m_uti_usada = 0, total_cirurgias = 0\<rparr> \<and>
         processa_cenario d
           \<lparr>nome = n, cen_orcamento = B, cen_horas_sala = H, cen_leitos_uti = L,
            prioridade = c\<rparr> = Inr Nenhuma_solucao_viavel" if e: "sol = []"
  proof -
    from guloso_solucao [OF g] guloso_valor [OF g] e
    have "met = \<lparr>m_valor_objetivo = Fin 0, m_orcamento_usado = 0, m_tempo_usado = 0,
                m_uti_usada = 0, total_cirurgias = 0\<rparr>"
      by (cases met) simp
    moreover from g e have "processa_cenario d
           \<lparr>nome = n, cen_orcamento = B, cen_horas_sala = H, cen_leitos_uti = L,
            prioridade = c\<rparr> = Inr Nenhuma_solucao_viavel"
      by (simp add: processa_cenario_def)
    ultimately show ?thesis by simp
  qed
  with m z ni ex pu g show ?thesis by blast
qed

theorem zero_sempre_viavel_witness:
  "(0::int) \<le> 10000 \<and> (0::rat) \<le> 480 \<and> (0::int) \<le> 15 \<and>
   list_all (\<lambda>l. 0 < custo_r l \<and> 0 < tempo_h l) (linhas df) \<and>
   (\<exists>p. monta_problema df 10000 480 15 ''gravidade'' = Some p \<and>
        viavel p (replicate (length (linhas df)) 0) \<and> \<not> solve p Infeasible \<and>
        (\<exists>x. solve p (Optimal x))) \<and>
   snd (resolver_simplex_guloso df 10000 480 15 ''gravidade'') =
     Inr ([], \<lparr>m_valor_objetivo = Fin 0, m_orcamento_usado = 0, m_tempo_usado = 0,
               m_uti_usada = 0, total_cirurgias = 0\<rparr>)"
proof -
  have v: "list_all (\<lambda>l. 0 < custo_r l \<and> 0 < tempo_h l) (linhas df)"
    by (simp add: df_def procedimentos_def mk_linha_def)
  have c: "(0::int) \<le> 10000" "(0::rat) \<le> 480" "(0::int) \<le> 15" by simp_all
  from zero_sempre_viavel [OF c v, of "''gravidade''" "''teste''"]
  have "\<exists>p. monta_problema df 10000 480 15 ''gravidade'' = Some p \<and>
        viavel p (replicate (length (linhas df)) 0) \<and> \<not> solve p Infeasible \<and>
        (\<exists>x. solve p (Optimal x))"
    by blast
  with v c guloso_df_sem_orcamento show ?thesis by blast
qed

text \<open>
  The reference table with a budget below the cheapest procedure: the zero plan is
  feasible, and the scenario loop reports that no viable solution was found.
\<close>

theorem relatorio_sem_plano_counterexample:
  "list_all (\<lambda>l. 0 < custo_r l \<and> 0 < tempo_h l) (linhas df) \<and>
   processa_cenario df
     \<lparr>nome = ''Orcamento abaixo do menor custo'', cen_orcamento = 10000,
      cen_horas_sala = 480, cen_leitos_uti = 15, prioridade = ''gravidade''\<rparr> =
     Inr Nenhuma_solucao_viavel"
  by (simp add: processa_cenario_def guloso_df_sem_orcamento)
    (simp add: df_def procedimentos_def mk_linha_def)

section \<open>Capacity constraints of the returned plans\<close>




section \<open>The exact optimum against the heuristic\<close>








section \<open>Envelopes with a negative capacity\<close>

text \<open>
  C7, as the code has it. Neither function checks the envelope. With a negative
  capacity and a catalog of positive costs and durations and ICU flags 0 or 1, the
  heuristic returns a plan without raising, and the exact path builds its program and
  solves it: no point is feasible, so the only status is \<open>Infeasible\<close>, returned with
  no objective value.
\<close>

theorem envelope_negativo_sem_erro:
  "B < 0 \<or> H < 0 \<or> L < 0 \<Longrightarrow> catalogo_valido (linhas d) \<Longrightarrow>
   (\<exists>sol met. snd (resolver_simplex_guloso d B H L c) = Inr (sol, met)) \<and>
   (\<exists>p. monta_problema d B H L c = Some p \<and> solve p Infeasible) \<and>
   (\<forall>d' r v. otimizar_cirurgias_pulp d B H L c (d', r, v) \<longrightarrow> r = Infeasible \<and> v = None)"
proof -
  assume neg: "B < 0 \<or> H < 0 \<or> L < 0" and cv: "catalogo_valido (linhas d)"
  from cv have nz: "\<forall>l\<in>set (linhas d). custo_r l \<noteq> 0 \<and> tempo_h l \<noteq> 0"
    and nz1: "list_all (\<lambda>l. custo_r l \<noteq> 0) (linhas d)"
    by (auto simp: catalogo_valido_def list_all_iff)
  from monta_Some [of c d B H L] nz1 obtain p where m: "monta_problema d B H L c = Some p"
    by blast
  have nv: "\<not> viavel p x" for x
    using viavel_capacidades [OF m cv, of x] neg by auto
  then have inf: "solve p Infeasible" by (simp add: solve_Infeasible)
  have "r = Infeasible \<and> v = None" if o: "otimizar_cirurgias_pulp d B H L c (d', r, v)"
    for d' r v
  proof -
    from pulp_D [OF o] m have s: "solve p r"
      and v: "v = (case r of Optimal x \<Rightarrow> Some (valor p x) | _ \<Rightarrow> None)" by auto
    from s nv have "r = Infeasible" by (auto elim: solve.cases)
    with v show ?thesis by simp
  qed
  with guloso_Inr [OF nz, of B H L c] m inf show ?thesis by blast
qed

theorem envelope_negativo_sem_erro_witness:
  "((-1 :: int) < 0) \<and> catalogo_valido (linhas df) \<and>
   (\<exists>sol met. snd (resolver_simplex_guloso df (-1) 480 15 ''incidencia'') = Inr (sol, met)) \<and>
   (\<exists>p. monta_problema df (-1) 480 15 ''incidencia'' = Some p \<and> solve p Infeasible)"
proof -
  have cv: "catalogo_valido (linhas df)"
    by (simp add: catalogo_valido_def df_def procedimentos_def mk_linha_def)
  have n: "(-1 :: int) < 0 \<or> (480 :: rat) < 0 \<or> (15 :: int) < 0" by simp
  from envelope_negativo_sem_erro [OF n cv, of "''incidencia''"]
  show ?thesis using cv by simp
qed

text \<open>
  With \<open>orcamento = -1\<close> on the reference table the heuristic returns normally, with
  the empty plan and all totals 0.
\<close>

theorem orcamento_negativo_counterexample:
  "snd (resolver_simplex_guloso df (-1) 480 15 ''incidencia'') =
     Inr ([], \<lparr>m_valor_objetivo = Fin 0, m_orcamento_usado = 0, m_tempo_usado = 0,
               m_uti_usada = 0, total_cirurgias = 0\<rparr>)"
  by (simp add: resolver_simplex_guloso_def df_def procedimentos_def mk_linha_def pesos_def
      sort_values_peso_def qtd_max_def estado_inicial_def trunc_int_def adiciona_def Let_def)

section \<open>What a solve does to the frame it is given\<close>

text \<open>
  C6, as the code has it. The exact solve only reads the frame. The heuristic assigns
  the column \<open>peso\<close> of the frame it is given (the weights of the criterion) and changes
  nothing else: the rows are the same.
\<close>

theorem catalogo_apos_solve:
  "(otimizar_cirurgias_pulp d B H L c (d', r, v) \<longrightarrow> d' = d) \<and>
   fst (resolver_simplex_guloso d B H L c) = d\<lparr>peso := Some (pesos c (linhas d))\<rparr> \<and>
   linhas (fst (resolver_simplex_guloso d B H L c)) = linhas d"
  using pulp_D [of d B H L c d' r v]
  by (auto simp: resolver_simplex_guloso_def Let_def)

theorem catalogo_apos_solve_witness:
  "otimizar_cirurgias_pulp pacientes_na_fila 500000 6 1 ''gravidade''
     (pacientes_na_fila, Optimal [0, 0, 3], Some 18) \<and>
   fst (resolver_simplex_guloso pacientes_na_fila 500000 6 1 ''gravidade'') =
     pacientes_na_fila\<lparr>peso := Some [Fin 10, Fin 8, Fin 6]\<rparr> \<and>
   linhas (fst (resolver_simplex_guloso pacientes_na_fila 500000 6 1 ''gravidade'')) =
     linhas pacientes_na_fila"
proof -
  have o: "otimizar_cirurgias_pulp pacientes_na_fila 500000 6 1 ''gravidade''
     (pacientes_na_fila, Optimal [0, 0, 3], Some 18)"
    using pulp_pacientes [of 3 500000] by simp
  have w: "pesos ''gravidade'' (linhas pacientes_na_fila) = [Fin 10, Fin 8, Fin 6]"
    by (simp add: pesos_def pacientes_na_fila_def mk_linha_def)
  from catalogo_apos_solve [of pacientes_na_fila 500000 6 1 "''gravidade''"
      pacientes_na_fila "Optimal [0, 0, 3]" "Some 18"] o w
  show ?thesis by simp
qed

text \<open>
  The reference frame has no column \<open>peso\<close> before the call and has one after it.
\<close>

theorem coluna_peso_counterexample:
  "peso df = None \<and>
   peso (fst (resolver_simplex_guloso df 500000 480 15 ''incidencia'')) =
     Some [Fin (181 / 50), Fin (1001 / 100), Fin (1371 / 100), Fin (184 / 25),
           Fin (309 / 100), Fin (26 / 5), Fin (24 / 5), Fin (123 / 20)] \<and>
   fst (resolver_simplex_guloso df 500000 480 15 ''incidencia'') \<noteq> df"
proof -
  have a: "peso df = None" by (simp add: df_def)
  have b: "peso (fst (resolver_simplex_guloso df 500000 480 15 ''incidencia'')) =
     Some [Fin (181 / 50), Fin (1001 / 100), Fin (1371 / 100), Fin (184 / 25),
           Fin (309 / 100), Fin (26 / 5), Fin (24 / 5), Fin (123 / 20)]"
    by (simp add: peso_guloso) (simp add: pesos_def df_def procedimentos_def mk_linha_def)
  from a b have "fst (resolver_simplex_guloso df 500000 480 15 ''incidencia'') \<noteq> df"
    by auto
  with a b show ?thesis by simp
qed

section \<open>The worked case as an integer program\<close>

lemma exemplo_viavel:
  "viavel exemplo_didatico [a, b, c] \<longleftrightarrow>
     0 \<le> a \<and> 0 \<le> b \<and> 0 \<le> c \<and> 6 * a + 3 * b + 2 * c \<le> 6 \<and> a + b \<le> 1"
proof -
  have "(6 * a + 3 * b + 2 * c \<le> 6) \<longleftrightarrow>
        ((of_int (6 * a + 3 * b + 2 * c) :: rat) \<le> of_int 6)"
    by (simp only: of_int_le_iff)
  then have h: "(6 * a + 3 * b + 2 * c \<le> 6) \<longleftrightarrow>
        (6 * of_int a + (3 * of_int b + 2 * of_int c) \<le> (6 :: rat))"
    by (simp add: add.assoc)
  have "(a + b \<le> 1) \<longleftrightarrow> ((of_int (a + b) :: rat) \<le> of_int 1)"
    by (simp only: of_int_le_iff)
  then have u: "(a + b \<le> 1) \<longleftrightarrow> (of_int a + of_int b \<le> (1 :: rat))"
    by simp
  show ?thesis
    unfolding h u by (simp add: viavel_def exemplo_didatico_def lpSum_def)
qed

lemma exemplo_valor:
  "valor exemplo_didatico [a, b, c] = of_int (10 * a + 8 * b + 6 * c)"
  by (simp add: valor_def exemplo_didatico_def lpSum_def)

text \<open>
  C2, as the program has it. In the worked case (6 room hours, 1 ICU bed, procedures of
  weight 10, 8, 6 with 6, 3, 2 hours, the first two needing the ICU), one unit of the
  first procedure is feasible with value 10; one unit each of the second and third is
  feasible too (5 hours, 1 ICU bed) with value 14; the only optimum of the program is
  three units of the third procedure, with value 18.
\<close>

theorem exemplo_didatico_otimo:
  "viavel exemplo_didatico [1, 0, 0] \<and> valor exemplo_didatico [1, 0, 0] = 10 \<and>
   viavel exemplo_didatico [0, 1, 1] \<and> valor exemplo_didatico [0, 1, 1] = 14 \<and>
   lpSum [6, 3, 2] [0, 1, 1] = 5 \<and> lpSum [1, 1, 0] [0, 1, 1] = 1 \<and>
   valor exemplo_didatico [0, 0, 3] = 18 \<and>
   (\<forall>x. solve exemplo_didatico (Optimal x) \<longleftrightarrow> x = [0, 0, 3])"
proof -
  have opt: "solve exemplo_didatico (Optimal [0, 0, 3])"
  proof (rule solve_Optimal)
    show "viavel exemplo_didatico [0, 0, 3]" by (simp add: exemplo_viavel)
    show "\<forall>y. viavel exemplo_didatico y \<longrightarrow>
            valor exemplo_didatico y \<le> valor exemplo_didatico [0, 0, 3]"
    proof (intro allI impI)
      fix y assume v: "viavel exemplo_didatico y"
      then have "length y = 3" by (simp add: viavel_def exemplo_didatico_def)
      from lista3 [OF this] obtain a b c where y: "y = [a, b, c]" by blast
      from v have "10 * a + 8 * b + 6 * c \<le> 18" by (simp add: y exemplo_viavel)
      then have "(of_int (10 * a + 8 * b + 6 * c) :: rat) \<le> of_int 18"
        by (simp only: of_int_le_iff)
      then show "valor exemplo_didatico y \<le> valor exemplo_didatico [0, 0, 3]"
        by (simp add: y exemplo_valor)
    qed
  qed
  have uniq: "x = [0, 0, 3]" if s: "solve exemplo_didatico (Optimal x)" for x
  proof -
    from solve_Optimal_D [OF s] have v: "viavel exemplo_didatico x"
      and m: "valor exemplo_didatico [0, 0, 3] \<le> valor exemplo_didatico x"
      using exemplo_viavel [of 0 0 3] by auto
    from v have "length x = 3" by (simp add: viavel_def exemplo_didatico_def)
    from lista3 [OF this] obtain a b c where x: "x = [a, b, c]" by blast
    from m have "(of_int 18 :: rat) \<le> of_int (10 * a + 8 * b + 6 * c)"
      by (simp add: x exemplo_valor)
    then have "18 \<le> 10 * a + 8 * b + 6 * c" by (simp only: of_int_le_iff)
    with v have "a = 0 \<and> b = 0 \<and> c = 3" by (simp add: x exemplo_viavel)
    then show ?thesis by (simp add: x)
  qed
  have "\<forall>x. solve exemplo_didatico (Optimal x) \<longleftrightarrow> x = [0, 0, 3]"
    using opt uniq by blast
  moreover have "lpSum [6, 3, 2] [0, 1, 1] = 5" "lpSum [1, 1, 0] [0, 1, 1] = 1"
    by (simp_all add: lpSum_def)
  ultimately show ?thesis
    by (simp add: exemplo_viavel exemplo_valor)
qed

theorem exemplo_didatico_otimo_witness:
  "solve exemplo_didatico (Optimal [0, 0, 3]) \<and> \<not> solve exemplo_didatico (Optimal [1, 0, 0])"
  using exemplo_didatico_otimo by simp

text \<open>
  One unit each of the second and third procedure uses one ICU bed, not two, so it
  satisfies the ICU constraint, and it is worth more than one unit of the first.
\<close>

theorem exemplo_didatico_counterexample:
  "viavel exemplo_didatico [0, 1, 1] \<and>
   lpSum [1, 1, 0] [0, 1, 1] \<le> 1 \<and>
   valor exemplo_didatico [1, 0, 0] < valor exemplo_didatico [0, 1, 1] \<and>
   \<not> solve exemplo_didatico (Optimal [1, 0, 0])"
proof -
  have f: "viavel exemplo_didatico [0, 1, 1]" by (simp add: exemplo_viavel)
  have lt: "valor exemplo_didatico [1, 0, 0] < valor exemplo_didatico [0, 1, 1]"
    by (simp add: exemplo_valor)
  have "\<not> solve exemplo_didatico (Optimal [1, 0, 0])"
  proof
    assume "solve exemplo_didatico (Optimal [1, 0, 0])"
    from solve_Optimal_D [OF this] f
    have "valor exemplo_didatico [0, 1, 1] \<le> valor exemplo_didatico [1, 0, 0]" by blast
    with lt show False by simp
  qed
  moreover have "lpSum [1, 1, 0] [0, 1, 1] \<le> 1" by (simp add: lpSum_def)
  ultimately show ?thesis using f lt by simp
qed

end
